theory Spec2Isabelle
  imports Complex_Main
begin

section \<open>Python values and errors\<close>

text \<open>
  The cells that \<^verbatim>\<open>pd.read_csv\<close> hands to \<^verbatim>\<open>value_to_int\<close> are Python ints,
  Python floats (a column of decimals, or a missing cell, read as NaN) or Python strings
  (every cell of a column that holds at least one non-numeric entry). Only the tag of a
  float matters to the code below; its payload is a rational or NaN. Strings are ASCII.
\<close>

datatype pyfloat = FloatOf rat | FloatNaN

datatype pyval = PInt int | PFloat pyfloat | PStr string

text \<open>What \<^verbatim>\<open>value_to_int\<close> can return: an int, or the float literal of line 30.\<close>

datatype num = NInt int | NFloat pyfloat

datatype error = TypeError | ValueError | KeyError | IndexError

fun is_int :: "num \<Rightarrow> bool" where
  "is_int (NInt i) = True"
| "is_int (NFloat x) = False"

text \<open>The numeric value of a result, as Python's \<^verbatim>\<open>==\<close> between numbers compares it.\<close>

fun num_value :: "num \<Rightarrow> rat option" where
  "num_value (NInt i) = Some (of_int i)"
| "num_value (NFloat (FloatOf q)) = Some q"
| "num_value (NFloat FloatNaN) = None"

section \<open>Python's string operations used by the normalizer\<close>

definition is_digit :: "char \<Rightarrow> bool" where
  "is_digit c = (48 \<le> (of_char c :: nat) \<and> (of_char c :: nat) \<le> 57)"

definition digit_val :: "char \<Rightarrow> int" where
  "digit_val c = int (of_char c) - 48"

text \<open>ASCII characters for which \<^verbatim>\<open>str.isspace\<close> holds: 9 to 13 and 28 to 32.\<close>

definition is_space :: "char \<Rightarrow> bool" where
  "is_space c = ((9 \<le> (of_char c :: nat) \<and> (of_char c :: nat) \<le> 13)
               \<or> (28 \<le> (of_char c :: nat) \<and> (of_char c :: nat) \<le> 32))"

definition strip :: "string \<Rightarrow> string" where
  "strip s = rev (dropWhile is_space (rev (dropWhile is_space s)))"

text \<open>
  The digits of an integer literal, after the sign: a digit, then digits each optionally
  preceded by one underscore. The accumulator is the value read so far.
\<close>

fun py_digits :: "int \<Rightarrow> string \<Rightarrow> int option" where
  "py_digits acc [] = Some acc"
| "py_digits acc (c # cs) =
     (if is_digit c then py_digits (10 * acc + digit_val c) cs
      else if c = CHR ''_'' then
        (case cs of
           [] \<Rightarrow> None
         | d # ds \<Rightarrow> if is_digit d then py_digits acc cs else None)
      else None)"

text \<open>
  \<^verbatim>\<open>sys.get_int_max_str_digits()\<close>: CPython refuses to convert a decimal string with
  more digits than this (4300 unless reconfigured).
\<close>

definition int_max_str_digits :: nat where
  "int_max_str_digits = 4300"

text \<open>
  \<^verbatim>\<open>int(s)\<close> for a string \<open>s\<close>: surrounding whitespace is dropped, one sign is
  allowed, the rest must be a digit sequence; anything else raises ValueError.
\<close>

definition py_int :: "string \<Rightarrow> error + int" where
  "py_int s =
     (let b = strip s;
          (sgn, body) = (case b of
                           [] \<Rightarrow> (1, [])
                         | c # r \<Rightarrow> if c = CHR ''-'' then (- 1, r)
                                    else if c = CHR ''+'' then (1, r)
                                    else (1, b))
      in case body of
           [] \<Rightarrow> Inl ValueError
         | d # ds \<Rightarrow>
             if \<not> is_digit d then Inl ValueError
             else if int_max_str_digits < length (filter is_digit body) then Inl ValueError
             else (case py_digits 0 body of
                     None \<Rightarrow> Inl ValueError
                   | Some v \<Rightarrow> Inr (sgn * v)))"

text \<open>\<^verbatim>\<open>s.split(sep)\<close> for a one-character separator: always at least one piece.\<close>

fun split :: "char \<Rightarrow> string \<Rightarrow> string list" where
  "split sep [] = [[]]"
| "split sep (c # cs) =
     (if c = sep then [] # split sep cs
      else (case split sep cs of
              [] \<Rightarrow> [[c]]
            | p # ps \<Rightarrow> (c # p) # ps))"

text \<open>\<^verbatim>\<open>s.replace(c, '')\<close> for a one-character \<open>c\<close>: every occurrence is removed.\<close>

definition replace_empty :: "char \<Rightarrow> string \<Rightarrow> string" where
  "replace_empty c s = filter (\<lambda>d. d \<noteq> c) s"

section \<open>The normalizer\<close>

text \<open>
  \<^verbatim>\<open>value_to_int\<close> (lines 20 to 31). A float reaches \<^verbatim>\<open>'k' in x\<close>, which raises
  TypeError. In the decimal branch \<^verbatim>\<open>vals[1]\<close> is the whole text between the first
  and the second point, and \<^verbatim>\<open>int(vals[0])\<close> is evaluated before \<^verbatim>\<open>int(vals[1])\<close>.
\<close>

fun value_to_int :: "pyval \<Rightarrow> error + num" where
  "value_to_int (PInt i) = Inr (NInt i)"
| "value_to_int (PFloat x) = Inl TypeError"
| "value_to_int (PStr x) =
     (if CHR ''k'' \<in> set x then
        (if CHR ''.'' \<in> set x then
           (case split (CHR ''.'') (replace_empty (CHR ''k'') x) of
              v0 # v1 # rest \<Rightarrow>
                (case py_int v0 of
                   Inl e \<Rightarrow> Inl e
                 | Inr a \<Rightarrow>
                     (case py_int v1 of
                        Inl e \<Rightarrow> Inl e
                      | Inr b \<Rightarrow> Inr (NInt (a * 1000 + b * 100))))
            | _ \<Rightarrow> Inl IndexError)
         else if 1 < length x then
           (case py_int (replace_empty (CHR ''k'') x) of
              Inl e \<Rightarrow> Inl e
            | Inr a \<Rightarrow> Inr (NInt (a * 1000)))
         else Inr (NFloat (FloatOf 1000)))
      else (case py_int x of Inl e \<Rightarrow> Inl e | Inr a \<Rightarrow> Inr (NInt a)))"

section \<open>The loaded table\<close>

text \<open>
  The data frame \<^verbatim>\<open>df\<close> as \<^verbatim>\<open>read_csv\<close> builds it from the input file: the
  \<^verbatim>\<open>country\<close> column first, then one column per year, each a label and one cell per
  row. Line 58 converts the year labels to integers; the model keeps them as integers.
\<close>

record 'a table =
  country :: "string list"
  ycols :: "(int \<times> 'a list) list"

text \<open>\<^verbatim>\<open>Series.apply\<close>: the function is applied cell by cell and the first exception ends it.\<close>

fun apply_series :: "('a \<Rightarrow> error + 'b) \<Rightarrow> 'a list \<Rightarrow> error + 'b list" where
  "apply_series f [] = Inr []"
| "apply_series f (x # xs) =
     (case f x of
        Inl e \<Rightarrow> Inl e
      | Inr y \<Rightarrow> (case apply_series f xs of Inl e \<Rightarrow> Inl e | Inr ys \<Rightarrow> Inr (y # ys)))"

definition normalize_col :: "int \<times> pyval list \<Rightarrow> error + (int \<times> num list)" where
  "normalize_col c =
     (case apply_series value_to_int (snd c) of
        Inl e \<Rightarrow> Inl e
      | Inr ws \<Rightarrow> Inr (fst c, ws))"

text \<open>The loop of lines 33 and 34: every column but the first, in order.\<close>

definition normalize :: "pyval table \<Rightarrow> error + num table" where
  "normalize t =
     (case apply_series normalize_col (ycols t) of
        Inl e \<Rightarrow> Inl e
      | Inr cs \<Rightarrow> Inr \<lparr>country = country t, ycols = cs\<rparr>)"

text \<open>Line 58: \<^verbatim>\<open>years = (df.columns[1:].values).astype(int)\<close>.\<close>

definition years :: "'a table \<Rightarrow> int list" where
  "years t = map fst (ycols t)"

section \<open>Python indexing and slicing\<close>

text \<open>\<^verbatim>\<open>xs[i]\<close>: \<open>-1\<close> is the last position; outside both ranges it raises.\<close>

definition py_nth :: "'a list \<Rightarrow> int \<Rightarrow> error + 'a" where
  "py_nth xs i =
     (if 0 \<le> i \<and> i < int (length xs) then Inr (xs ! nat i)
      else if - int (length xs) \<le> i \<and> i < 0 then Inr (xs ! nat (i + int (length xs)))
      else Inl IndexError)"

text \<open>A slice bound: a negative bound counts from the end, and every bound is clamped.\<close>

definition slice_bound :: "int \<Rightarrow> int \<Rightarrow> nat" where
  "slice_bound n i = nat (if i < 0 then max 0 (n + i) else min i n)"

text \<open>\<^verbatim>\<open>xs[a:b]\<close>; it never raises.\<close>

definition py_slice :: "int \<Rightarrow> int \<Rightarrow> 'a list \<Rightarrow> 'a list" where
  "py_slice a b xs =
     (let n = int (length xs); lo = slice_bound n a; hi = slice_bound n b
      in take (hi - lo) (drop lo xs))"

section \<open>The default year range\<close>

text \<open>
  Lines 59, 60 and 70. \<open>start\<close> is the value drawn by
  \<^verbatim>\<open>random.randint(0, math.floor(2*len(years)/3))\<close>, which is any integer from 0 to
  \<open>start_bound\<close> inclusive; the slider's default value is
  \<^verbatim>\<open>[years[start], years[end]]\<close>.
\<close>

definition start_bound :: "int list \<Rightarrow> int" where
  "start_bound ys = (2 * int (length ys)) div 3"

definition slider_value :: "int list \<Rightarrow> int \<Rightarrow> error + (int \<times> int)" where
  "slider_value ys start =
     (let end = start + int (length ys) div 3
      in case py_nth ys start of
           Inl e \<Rightarrow> Inl e
         | Inr a \<Rightarrow> (case py_nth ys end of Inl e \<Rightarrow> Inl e | Inr b \<Rightarrow> Inr (a, b)))"

section \<open>Data frames inside the callback\<close>

text \<open>
  \<^verbatim>\<open>update_graph\<close> drops columns by label from slices of \<^verbatim>\<open>mini_df.columns\<close>, and
  a slice may reach the \<^verbatim>\<open>country\<close> column, so a frame is a list of columns of either kind.
\<close>

datatype label = Country | Year int

datatype 'a column = IdCol "string list" | YearCol int "'a list"

fun label_of :: "'a column \<Rightarrow> label" where
  "label_of (IdCol ns) = Country"
| "label_of (YearCol y vs) = Year y"

definition frame_of :: "'a table \<Rightarrow> 'a column list" where
  "frame_of t = IdCol (country t) # map (\<lambda>c. YearCol (fst c) (snd c)) (ycols t)"

definition columns :: "'a column list \<Rightarrow> label list" where
  "columns f = map label_of f"

text \<open>\<^verbatim>\<open>Series.isin(values)\<close>: the boolean mask of the rows.\<close>

definition isin :: "string list \<Rightarrow> string list \<Rightarrow> bool list" where
  "isin col vals = map (\<lambda>c. c \<in> set vals) col"

definition mask_rows :: "bool list \<Rightarrow> 'b list \<Rightarrow> 'b list" where
  "mask_rows m xs = map snd (filter fst (zip m xs))"

text \<open>\<^verbatim>\<open>df.loc[mask]\<close>: the rows where the mask holds, in the frame's row order.\<close>

fun loc_col :: "bool list \<Rightarrow> 'a column \<Rightarrow> 'a column" where
  "loc_col m (IdCol ns) = IdCol (mask_rows m ns)"
| "loc_col m (YearCol y vs) = YearCol y (mask_rows m vs)"

definition loc :: "bool list \<Rightarrow> 'a column list \<Rightarrow> 'a column list" where
  "loc m f = map (loc_col m) f"

text \<open>
  \<^verbatim>\<open>frame.drop(labels, axis=1)\<close>: KeyError when a label names no column, otherwise
  every column carrying one of the labels goes.
\<close>

definition drop_columns :: "label list \<Rightarrow> 'a column list \<Rightarrow> error + 'a column list" where
  "drop_columns ls f =
     (if set ls \<subseteq> set (columns f)
      then Inr (filter (\<lambda>c. label_of c \<notin> set ls) f)
      else Inl KeyError)"

text \<open>Lines 142 to 148 of \<^verbatim>\<open>update_graph\<close>: the selection.\<close>

definition mini_df :: "'a table \<Rightarrow> string list \<Rightarrow> int \<times> int \<Rightarrow> error + 'a column list" where
  "mini_df df selected_countries selected_years =
     (let f0 = loc (isin (country df) selected_countries) (frame_of df)
      in case py_nth (years df) 0 of
           Inl e \<Rightarrow> Inl e
         | Inr y0 \<Rightarrow>
             (let small = fst selected_years - y0;
                  big = snd selected_years - y0
              in case drop_columns (py_slice 1 (small + 1) (columns f0)) f0 of
                   Inl e \<Rightarrow> Inl e
                 | Inr f1 \<Rightarrow>
                     drop_columns
                       (py_slice (big - small + 2) (int (length (columns f1)) + 1) (columns f1))
                       f1))"

text \<open>
  \<^verbatim>\<open>pd.melt(frame, id_vars=['country'], var_name='year')\<close>: KeyError without the
  \<^verbatim>\<open>country\<close> column; otherwise the value columns one after the other, each paired row
  by row with the \<^verbatim>\<open>country\<close> column. A tidy record is (country, year, value).
\<close>

fun id_column :: "'a column list \<Rightarrow> string list option" where
  "id_column [] = None"
| "id_column (IdCol ns # f) = Some ns"
| "id_column (YearCol y vs # f) = id_column f"

fun melt_col :: "string list \<Rightarrow> 'a column \<Rightarrow> (string \<times> int \<times> 'a) list" where
  "melt_col ns (IdCol ms) = []"
| "melt_col ns (YearCol y vs) = map (\<lambda>p. (fst p, y, snd p)) (zip ns vs)"

definition melt :: "'a column list \<Rightarrow> error + (string \<times> int \<times> 'a) list" where
  "melt f =
     (case id_column f of
        None \<Rightarrow> Inl KeyError
      | Some ns \<Rightarrow> Inr (concat (map (melt_col ns) f)))"

text \<open>
  Lines 151 to 156. On the normalized table the year labels and the values are numbers
  already, and \<^verbatim>\<open>pd.to_numeric\<close> leaves a number as it is.
\<close>

definition melted_df ::
  "'a table \<Rightarrow> string list \<Rightarrow> int \<times> int \<Rightarrow> error + (string \<times> int \<times> 'a) list" where
  "melted_df df selected_countries selected_years =
     (case mini_df df selected_countries selected_years of
        Inl e \<Rightarrow> Inl e
      | Inr f \<Rightarrow> melt f)"

text \<open>
  The selection as the specification words it: the rows whose country is selected, and
  the year columns whose year lies between the two ends of the range.
\<close>

definition select :: "'a table \<Rightarrow> string list \<Rightarrow> int \<times> int \<Rightarrow> 'a column list" where
  "select t cs r =
     IdCol (filter (\<lambda>c. c \<in> set cs) (country t)) #
     map (\<lambda>c. YearCol (fst c) (mask_rows (isin (country t) cs) (snd c)))
       (filter (\<lambda>c. fst r \<le> fst c \<and> fst c \<le> snd r) (ycols t))"

text \<open>The table of the end-to-end scenario.\<close>

definition scenario :: "pyval table" where
  "scenario =
     \<lparr>country = [''Andorra'', ''Zimbabwe''],
      ycols = [(2000, [PInt 1000, PInt 500]),
               (2001, [PInt 1100, PStr ''1.5k'']),
               (2002, [PInt 1200, PInt 600])]\<rparr>"

definition scenario_canonical :: "num table" where
  "scenario_canonical =
     \<lparr>country = [''Andorra'', ''Zimbabwe''],
      ycols = [(2000, [NInt 1000, NInt 500]),
               (2001, [NInt 1100, NInt 1500]),
               (2002, [NInt 1200, NInt 600])]\<rparr>"

text \<open>One cell per row in every year column, as in any data frame.\<close>

definition well_formed :: "'a table \<Rightarrow> bool" where
  "well_formed t = list_all (\<lambda>c. length (snd c) = length (country t)) (ycols t)"



text \<open>A normalized table handed to the normalizer again: each number is the same Python object.\<close>

fun raw_cell :: "num \<Rightarrow> pyval" where
  "raw_cell (NInt i) = PInt i"
| "raw_cell (NFloat x) = PFloat x"

definition raw_table :: "num table \<Rightarrow> pyval table" where
  "raw_table t =
     \<lparr>country = country t, ycols = map (\<lambda>c. (fst c, map raw_cell (snd c))) (ycols t)\<rparr>"



section \<open>Evaluating the normalizer\<close>

lemmas eval_defs =
  py_int_def strip_def is_space_def is_digit_def digit_val_def replace_empty_def
  int_max_str_digits_def

text \<open>
  C1. For a cell \<open>I.Fk\<close> the specification wants \<open>I * 1000\<close> plus a hundred times the
  first digit of \<open>F\<close>, so 2900 for both \<open>2.90k\<close> and \<open>2.95k\<close>. The code converts the
  whole of \<open>F\<close> and returns 11000 and 11500.
\<close>

theorem value_to_int_two_fraction_digits:
  "value_to_int (PStr ''2.90k'') = Inr (NInt 11000)
   \<and> value_to_int (PStr ''2.95k'') = Inr (NInt 11500)
   \<and> value_to_int (PStr ''2.9k'') = Inr (NInt 2900)"
  by (simp add: eval_defs)

text \<open>
  C7. The cell \<open>k\<close> is accepted by the grammar, and the normalizer's result for it is
  the float 1000.0 of line 30, not an integer.
\<close>

theorem value_to_int_bare_suffix_float:
  "value_to_int (PStr ''k'') = Inr (NFloat (FloatOf 1000))
   \<and> \<not> is_int (NFloat (FloatOf 1000))"
  by simp

text \<open>
  C10. The literal cases without a decimal point: \<open>5k\<close> gives 5000, \<open>k\<close> gives a number
  equal to 1000, \<open>1234\<close> gives 1234, and an integer cell is returned as it is.
\<close>

theorem value_to_int_literal_cases:
  "value_to_int (PStr ''5k'') = Inr (NInt 5000)
   \<and> (\<exists>r. value_to_int (PStr ''k'') = Inr r \<and> num_value r = Some 1000)
   \<and> value_to_int (PStr ''1234'') = Inr (NInt 1234)
   \<and> (\<forall>i. value_to_int (PInt i) = Inr (NInt i))"
  by (simp add: eval_defs)

section \<open>Lists: dropping by label and year windows\<close>

lemma filter_notin_take:
  "distinct (map f xs) \<Longrightarrow> filter (\<lambda>x. f x \<notin> set (take k (map f xs))) xs = drop k xs"
proof (induction xs arbitrary: k)
  case Nil
  then show ?case by simp
next
  case (Cons x xs)
  show ?case
  proof (cases k)
    case 0
    then show ?thesis by simp
  next
    case (Suc j)
    from Cons.prems have nx: "f x \<notin> f ` set xs" and d: "distinct (map f xs)" by auto
    have "filter (\<lambda>y. f y \<notin> set (take k (map f (x # xs)))) (x # xs)
          = filter (\<lambda>y. f y \<noteq> f x \<and> f y \<notin> set (take j (map f xs))) xs"
      using Suc by auto
    also have "\<dots> = filter (\<lambda>y. f y \<notin> set (take j (map f xs))) xs"
    proof (rule filter_cong [OF refl])
      fix y assume "y \<in> set xs"
      then have "f y \<noteq> f x" using nx by (metis imageI)
      then show "(f y \<noteq> f x \<and> f y \<notin> set (take j (map f xs)))
                 = (f y \<notin> set (take j (map f xs)))" by simp
    qed
    also have "\<dots> = drop j xs" using Cons.IH [OF d] .
    finally show ?thesis using Suc by simp
  qed
qed

lemma filter_notin_drop:
  "distinct (map f xs) \<Longrightarrow> filter (\<lambda>x. f x \<notin> set (drop k (map f xs))) xs = take k xs"
proof (induction xs arbitrary: k)
  case Nil
  then show ?case by simp
next
  case (Cons x xs)
  show ?case
  proof (cases k)
    case 0
    then show ?thesis by simp
  next
    case (Suc j)
    from Cons.prems have nx: "f x \<notin> f ` set xs" and d: "distinct (map f xs)" by auto
    have "f x \<notin> set (drop j (map f xs))"
      using nx by (metis in_set_dropD list.set_map)
    then show ?thesis using Suc Cons.IH [OF d, of j] by simp
  qed
qed

lemma filter_window:
  "(\<And>i. i < length xs \<Longrightarrow> P (xs ! i) \<longleftrightarrow> j \<le> i \<and> i < j + k)
   \<Longrightarrow> filter P xs = take k (drop j xs)"
proof (induction xs arbitrary: j k)
  case Nil
  then show ?case by simp
next
  case (Cons x xs)
  have hd: "P x \<longleftrightarrow> j = 0 \<and> 0 < k" using Cons.prems [of 0] by auto
  have tl: "\<And>i. i < length xs \<Longrightarrow> P (xs ! i) \<longleftrightarrow> j \<le> Suc i \<and> Suc i < j + k"
    using Cons.prems [of "Suc i" for i] by auto
  show ?case
  proof (cases j)
    case 0
    show ?thesis
    proof (cases k)
      case 0
      with \<open>j = 0\<close> tl have "\<And>i. i < length xs \<Longrightarrow> P (xs ! i) \<longleftrightarrow> 0 \<le> i \<and> i < 0 + 0" by simp
      from Cons.IH [OF this] hd \<open>j = 0\<close> \<open>k = 0\<close> show ?thesis by simp
    next
      case (Suc k')
      with \<open>j = 0\<close> tl have "\<And>i. i < length xs \<Longrightarrow> P (xs ! i) \<longleftrightarrow> 0 \<le> i \<and> i < 0 + k'" by simp
      from Cons.IH [OF this] hd \<open>j = 0\<close> Suc show ?thesis by simp
    qed
  next
    case (Suc j')
    with tl have "\<And>i. i < length xs \<Longrightarrow> P (xs ! i) \<longleftrightarrow> j' \<le> i \<and> i < j' + k" by simp
    from Cons.IH [OF this] hd Suc show ?thesis by simp
  qed
qed

lemma filter_year_range:
  assumes "map fst cols = [lo..hi]" and "lo \<le> s"
  shows "filter (\<lambda>c. s \<le> fst c \<and> fst c \<le> e) cols
         = take (nat (e - s + 1)) (drop (nat (s - lo)) cols)"
proof (rule filter_window)
  fix i assume i: "i < length cols"
  have len: "length cols = length [lo..hi]" using assms(1) by (metis length_map)
  have "fst (cols ! i) = map fst cols ! i" using i by simp
  also have "\<dots> = lo + int i" using assms(1) i len by simp
  finally have "fst (cols ! i) = lo + int i" .
  then show "(s \<le> fst (cols ! i) \<and> fst (cols ! i) \<le> e)
             = (nat (s - lo) \<le> i \<and> i < nat (s - lo) + nat (e - s + 1))"
    using assms(2) by auto
qed

lemma mask_rows_isin: "mask_rows (isin col vals) col = filter (\<lambda>c. c \<in> set vals) col"
  unfolding mask_rows_def isin_def
  by (induction col) auto

lemma length_mask_rows:
  "length xs = length m \<Longrightarrow> length (mask_rows m xs) = length (filter id m)"
  unfolding mask_rows_def
  by (induction m xs rule: list_induct2') auto

section \<open>The selection of the callback\<close>

lemma py_slice_tail_take:
  assumes "0 \<le> a" and "a \<le> int (length xs)"
  shows "py_slice 1 (a + 1) (x # xs) = take (nat a) xs"
  using assms by (simp add: py_slice_def slice_bound_def Let_def min_def nat_add_distrib)

lemma py_slice_tail_drop:
  assumes "1 \<le> a"
  shows "py_slice a (int (length (x # xs)) + 1) (x # xs) = drop (nat (a - 1)) xs"
proof -
  have "nat a = Suc (nat (a - 1))" using assms by simp
  then show ?thesis
    using assms
    by (auto simp add: py_slice_def slice_bound_def Let_def min_def)
qed

lemma mini_df_is_select:
  fixes t :: "'a table"
  assumes yrs: "years t = [lo..hi]" and ls: "lo \<le> s" and se: "s \<le> e" and sh: "s \<le> hi"
  shows "mini_df t cs (s, e) = Inr (select t cs (s, e))"
proof -
  define m where "m = isin (country t) cs"
  define g :: "int \<times> 'a list \<Rightarrow> 'a column"
    where "g = (\<lambda>c. YearCol (fst c) (mask_rows m (snd c)))"
  define G where "G = map g (ycols t)"
  define L where "L = map Year [lo..hi]"
  define ns where "ns = mask_rows m (country t)"
  define k where "k = nat (s - lo)"
  define j where "j = nat (e - s + 1)"
  have f0: "loc m (frame_of t) = IdCol ns # G"
    by (simp add: loc_def frame_of_def G_def g_def ns_def comp_def)
  have labG: "map label_of G = L"
  proof -
    have "map label_of G = map Year (map fst (ycols t))"
      by (simp add: G_def g_def comp_def)
    also have "map fst (ycols t) = [lo..hi]" using yrs by (simp add: years_def)
    finally show ?thesis by (simp add: L_def)
  qed
  have dL: "distinct L" by (simp add: L_def distinct_map inj_on_def)
  have cL: "Country \<notin> set L" by (auto simp add: L_def)
  have lenL: "int (length L) = hi - lo + 1" using ls sh by (simp add: L_def)
  have y0: "py_nth (years t) 0 = Inr lo"
    using ls sh by (simp add: yrs py_nth_def)
  have sl1: "py_slice 1 (s - lo + 1) (columns (IdCol ns # G)) = take k L"
    unfolding columns_def k_def using ls sh lenL labG
    by (simp add: py_slice_tail_take)
  have d1: "drop_columns (take k L) (IdCol ns # G) = Inr (IdCol ns # drop k G)"
  proof -
    have sub: "set (take k L) \<subseteq> set (columns (IdCol ns # G))"
      using set_take_subset [of k L] by (auto simp add: columns_def labG)
    have c: "Country \<notin> set (take k L)" using cL by (meson in_set_takeD)
    have "filter (\<lambda>c. label_of c \<notin> set (take k (map label_of G))) G = drop k G"
      by (rule filter_notin_take) (simp add: labG dL)
    then show ?thesis using sub c by (simp add: drop_columns_def labG)
  qed
  have labD: "map label_of (drop k G) = drop k L" by (simp add: labG [symmetric] drop_map)
  have sl2: "py_slice (e - lo - (s - lo) + 2) (int (length (columns (IdCol ns # drop k G))) + 1)
               (columns (IdCol ns # drop k G)) = drop j (drop k L)"
  proof -
    have "py_slice (e - s + 2) (int (length (Country # drop k L)) + 1) (Country # drop k L)
          = drop (nat (e - s + 2 - 1)) (drop k L)"
      by (rule py_slice_tail_drop) (use se in simp)
    moreover have "e - s + 2 - 1 = e - s + 1" by simp
    moreover have "e - lo - (s - lo) + 2 = e - s + 2" by simp
    ultimately show ?thesis by (simp add: columns_def labD j_def)
  qed
  have d2: "drop_columns (drop j (drop k L)) (IdCol ns # drop k G)
            = Inr (IdCol ns # take j (drop k G))"
  proof -
    have sub: "set (drop j (drop k L)) \<subseteq> set (columns (IdCol ns # drop k G))"
      using set_drop_subset [of j "drop k L"] by (auto simp add: columns_def labD)
    have c: "Country \<notin> set (drop j (drop k L))" using cL by (meson in_set_dropD)
    have "distinct (map label_of (drop k G))" using dL by (simp add: labD)
    then have "filter (\<lambda>c. label_of c \<notin> set (drop j (map label_of (drop k G)))) (drop k G)
               = take j (drop k G)"
      by (rule filter_notin_drop)
    then show ?thesis using sub c by (simp add: drop_columns_def labD)
  qed
  have mini: "mini_df t cs (s, e) = Inr (IdCol ns # take j (drop k G))"
    unfolding mini_df_def Let_def m_def [symmetric] f0 y0
    by (simp only: sum.case fst_conv snd_conv sl1 d1 sl2 d2)
  have "filter (\<lambda>c. s \<le> fst c \<and> fst c \<le> e) (ycols t) = take j (drop k (ycols t))"
    unfolding j_def k_def
    by (rule filter_year_range [where hi = hi]) (use yrs ls in \<open>simp_all add: years_def\<close>)
  then have "select t cs (s, e) = IdCol ns # take j (drop k G)"
    by (simp add: select_def ns_def m_def mask_rows_isin G_def g_def take_map drop_map)
  with mini show ?thesis by simp
qed

lemma take_drop_upto:
  assumes "lo \<le> s"
  shows "take (nat (e - s + 1)) (drop (nat (s - lo)) [lo..hi]) = [s..min e hi]"
proof (rule nth_equalityI)
  show "length (take (nat (e - s + 1)) (drop (nat (s - lo)) [lo..hi])) = length [s..min e hi]"
    using assms by auto
next
  fix i assume "i < length (take (nat (e - s + 1)) (drop (nat (s - lo)) [lo..hi]))"
  then have i: "i < nat (hi - lo + 1) - nat (s - lo)" "i < nat (e - s + 1)" by auto
  then have le: "s + int i \<le> min e hi" using assms by auto
  then have "[s..min e hi] ! i = s + int i" by simp
  moreover have "take (nat (e - s + 1)) (drop (nat (s - lo)) [lo..hi]) ! i = s + int i"
    using i assms by auto
  ultimately show "take (nat (e - s + 1)) (drop (nat (s - lo)) [lo..hi]) ! i = [s..min e hi] ! i"
    by simp
qed

lemma select_years:
  assumes "years t = [lo..hi]" and "lo \<le> s"
  shows "columns (select t cs (s, e)) = Country # map Year [s..min e hi]"
proof -
  have m: "map fst (ycols t) = [lo..hi]" using assms(1) by (simp add: years_def)
  have "map fst (filter (\<lambda>c. s \<le> fst c \<and> fst c \<le> e) (ycols t))
        = take (nat (e - s + 1)) (drop (nat (s - lo)) (map fst (ycols t)))"
    using filter_year_range [OF m assms(2), of e] by (simp add: take_map drop_map)
  also have "\<dots> = [s..min e hi]" unfolding m by (rule take_drop_upto [OF assms(2)])
  finally have "map fst (filter (\<lambda>c. s \<le> fst c \<and> fst c \<le> e) (ycols t)) = [s..min e hi]" .
  then have "map Year (map fst (filter (\<lambda>c. s \<le> fst c \<and> fst c \<le> e) (ycols t)))
             = map Year [s..min e hi]" by simp
  then show ?thesis by (simp add: columns_def select_def comp_def)
qed



text \<open>
  C2. On a table whose years are the contiguous ascending run \<open>lo..hi\<close>, for a range
  \<open>(s, e)\<close> with \<open>s \<le> e\<close> and both ends among the table's years, the selection of
  \<^verbatim>\<open>update_graph\<close> is the table restricted to the rows whose country is selected and
  to the year columns of \<open>s..e\<close>: its columns are \<^verbatim>\<open>country\<close> and exactly the years
  \<open>s..e\<close>, its countries are exactly the selected ones that are keys of the table, and
  an empty selection leaves no row.
\<close>

theorem mini_df_selects:
  assumes "years t = [lo..hi]" and "s \<le> e"
    and "s \<in> set (years t)" and "e \<in> set (years t)"
  shows "mini_df t cs (s, e) = Inr (select t cs (s, e))
         \<and> columns (select t cs (s, e)) = Country # map Year [s..e]
         \<and> id_column (select t cs (s, e)) = Some (filter (\<lambda>c. c \<in> set cs) (country t))
         \<and> set (filter (\<lambda>c. c \<in> set cs) (country t)) = set cs \<inter> set (country t)
         \<and> id_column (select t [] (s, e)) = Some []"
proof -
  from assms have b: "lo \<le> s" "s \<le> hi" "e \<le> hi" by auto
  have 1: "mini_df t cs (s, e) = Inr (select t cs (s, e))"
    using assms(1) b(1) assms(2) b(2) by (rule mini_df_is_select)
  have 2: "columns (select t cs (s, e)) = Country # map Year [s..e]"
    using select_years [OF assms(1) b(1), of cs e] b(3) by (simp add: min_def)
  have 3: "id_column (select t cs (s, e)) = Some (filter (\<lambda>c. c \<in> set cs) (country t))"
    by (simp add: select_def)
  have 4: "set (filter (\<lambda>c. c \<in> set cs) (country t)) = set cs \<inter> set (country t)" by auto
  have 5: "id_column (select t [] (s, e)) = Some []" by (simp add: select_def)
  from 1 2 3 4 5 show ?thesis by blast
qed

theorem mini_df_selects_witness:
  "years scenario_canonical = [2000..2002] \<and> (2000::int) \<le> 2001
   \<and> 2000 \<in> set (years scenario_canonical) \<and> 2001 \<in> set (years scenario_canonical)
   \<and> mini_df scenario_canonical [''Zimbabwe'', ''Andorra''] (2000, 2001)
       = Inr [IdCol [''Andorra'', ''Zimbabwe''],
              YearCol 2000 [NInt 1000, NInt 500], YearCol 2001 [NInt 1100, NInt 1500]]"
proof -
  have y: "years scenario_canonical = [2000..2002]"
    by (simp add: scenario_canonical_def years_def upto_rec1)
  have m: "2000 \<in> set (years scenario_canonical)" "2001 \<in> set (years scenario_canonical)"
    by (simp_all add: y)
  show ?thesis
    using mini_df_selects [OF y _ m, of "[''Zimbabwe'', ''Andorra'']"] y m
    by (simp add: scenario_canonical_def select_def mask_rows_def isin_def)
qed

section \<open>Year ranges that leave the table\<close>












section \<open>The default year range at start-up\<close>

text \<open>
  When the number of year columns is not a multiple of three, every draw gives two valid
  indices and the default range is made of two of the table's years.
\<close>

lemma slider_value_ok:
  assumes "length ys mod 3 \<noteq> 0" and "0 \<le> r" and "r \<le> start_bound ys"
  shows "slider_value ys r
         = Inr (ys ! nat r, ys ! nat (r + int (length ys) div 3))"
proof -
  define n where "n = int (length ys)"
  have m: "n mod 3 \<noteq> 0" using assms(1) unfolding n_def
    by (metis of_nat_mod of_nat_numeral of_nat_eq_0_iff)
  have n0: "0 \<le> n" by (simp add: n_def)
  have r: "r \<le> (2 * n) div 3" using assms(3) by (simp add: start_bound_def n_def)
  have e: "r + n div 3 < n" using m n0 r by presburger
  have d: "0 \<le> n div 3" using n0 by (simp add: pos_imp_zdiv_nonneg_iff)
  have s: "r < n" using e d by linarith
  have e0: "0 \<le> r + n div 3" using assms(2) d by linarith
  show ?thesis
    using assms(2) s e e0 by (simp add: slider_value_def py_nth_def n_def [symmetric] Let_def)
qed

text \<open>
  C9. With three year columns the draw may be 2, the largest value \<^verbatim>\<open>randint\<close> can
  return; then \<open>end\<close> is 3 and \<^verbatim>\<open>years[end]\<close> raises IndexError, so the end index is
  not a valid index.
\<close>

theorem slider_value_index_error:
  "start_bound [2000, 2001, 2002] = 2 \<and> slider_value [2000, 2001, 2002] 2 = Inl IndexError"
  by (simp add: start_bound_def slider_value_def py_nth_def)

section \<open>Melting the selection\<close>

lemma melt_select:
  "melt (select t cs r)
   = Inr (concat (map (\<lambda>c. map (\<lambda>p. (fst p, fst c, snd p))
                              (zip (filter (\<lambda>c. c \<in> set cs) (country t))
                                   (mask_rows (isin (country t) cs) (snd c))))
                      (filter (\<lambda>c. fst r \<le> fst c \<and> fst c \<le> snd r) (ycols t))))"
  by (simp add: melt_def select_def comp_def)

lemma selected_column_length:
  assumes "well_formed t" and "c \<in> set (ycols t)"
  shows "length (mask_rows (isin (country t) cs) (snd c))
         = length (filter (\<lambda>c. c \<in> set cs) (country t))"
proof -
  have len: "length (snd c) = length (country t)"
    using assms by (auto simp add: well_formed_def list_all_iff)
  then have "length (snd c) = length (isin (country t) cs)" by (simp add: isin_def)
  then have "length (mask_rows (isin (country t) cs) (snd c))
             = length (filter id (isin (country t) cs))"
    by (rule length_mask_rows)
  also have "\<dots> = length (mask_rows (isin (country t) cs) (country t))"
    by (rule length_mask_rows [symmetric]) (simp add: isin_def)
  finally show ?thesis by (simp add: mask_rows_isin)
qed

lemma melt_cols_length:
  "(\<And>c. c \<in> set cols \<Longrightarrow> length (h c) = length ns)
   \<Longrightarrow> length (concat (map (\<lambda>c. map (\<lambda>p. (fst p, fst c, snd p)) (zip ns (h c))) cols))
       = length cols * length ns"
  by (induction cols) simp_all

lemma melt_cols_years:
  "(\<And>c. c \<in> set cols \<Longrightarrow> length (h c) = length ns)
   \<Longrightarrow> map (\<lambda>r. fst (snd r))
         (concat (map (\<lambda>c. map (\<lambda>p. (fst p, fst c, snd p)) (zip ns (h c))) cols))
       = concat (map (\<lambda>y. replicate (length ns) y) (map fst cols))"
  by (induction cols) (simp_all add: comp_def map_replicate_const)

lemma melt_cols_countries:
  "(\<And>c. c \<in> set cols \<Longrightarrow> length (h c) = length ns)
   \<Longrightarrow> map fst (concat (map (\<lambda>c. map (\<lambda>p. (fst p, fst c, snd p)) (zip ns (h c))) cols))
       = concat (replicate (length cols) ns)"
  by (induction cols) (simp_all add: comp_def)

lemma selected_years:
  assumes "years t = [lo..hi]" and "lo \<le> s" and "e \<le> hi"
  shows "map fst (filter (\<lambda>c. s \<le> fst c \<and> fst c \<le> e) (ycols t)) = [s..e]"
proof -
  have m: "map fst (ycols t) = [lo..hi]" using assms(1) by (simp add: years_def)
  have "map fst (filter (\<lambda>c. s \<le> fst c \<and> fst c \<le> e) (ycols t))
        = take (nat (e - s + 1)) (drop (nat (s - lo)) (map fst (ycols t)))"
    using filter_year_range [OF m assms(2), of e] by (simp add: take_map drop_map)
  also have "\<dots> = [s..min e hi]" unfolding m by (rule take_drop_upto [OF assms(2)])
  finally show ?thesis using assms(3) by (simp add: min_def)
qed

lemma scenario_years: "years scenario_canonical = [2000..2002]"
  by (simp add: scenario_canonical_def years_def upto_rec1)


text \<open>
  C5. On a well-formed table with distinct country keys and years \<open>lo..hi\<close>, for a
  range \<open>(s, e)\<close> with \<open>s \<le> e\<close> and both ends among the table's years, melting the
  selection succeeds and gives as many tidy records as there are selected countries that
  are keys of the table, times \<open>e - s + 1\<close>.
\<close>

theorem melted_df_count:
  assumes "years t = [lo..hi]" and "s \<le> e"
    and "s \<in> set (years t)" and "e \<in> set (years t)"
    and "well_formed t" and "distinct (country t)"
  shows "\<exists>recs. melted_df t cs (s, e) = Inr recs
           \<and> length recs = card (set cs \<inter> set (country t)) * nat (e - s + 1)"
proof -
  from assms have b: "lo \<le> s" "s \<le> hi" "e \<le> hi" by auto
  define ns where "ns = filter (\<lambda>c. c \<in> set cs) (country t)"
  define cols where "cols = filter (\<lambda>c. s \<le> fst c \<and> fst c \<le> e) (ycols t)"
  define recs where
    "recs = concat (map (\<lambda>c. map (\<lambda>p. (fst p, fst c, snd p))
                               (zip ns (mask_rows (isin (country t) cs) (snd c)))) cols)"
  have m: "melted_df t cs (s, e) = Inr recs"
    using mini_df_is_select [OF assms(1) b(1) assms(2) b(2), of cs]
    by (simp add: melted_df_def melt_select recs_def ns_def cols_def)
  have h: "\<And>c. c \<in> set cols \<Longrightarrow> length (mask_rows (isin (country t) cs) (snd c)) = length ns"
    unfolding ns_def cols_def using selected_column_length [OF assms(5)] by simp
  have "length recs = length cols * length ns"
    unfolding recs_def using h by (rule melt_cols_length)
  moreover have "length cols = nat (e - s + 1)"
  proof -
    have "length cols = length (map fst cols)" by simp
    also have "map fst cols = [s..e]"
      unfolding cols_def using assms(1) b(1) b(3) by (rule selected_years)
    finally show ?thesis using assms(2) by simp
  qed
  moreover have "length ns = card (set cs \<inter> set (country t))"
  proof -
    have "distinct ns" using assms(6) by (simp add: ns_def)
    then have "length ns = card (set ns)" by (simp add: distinct_card)
    moreover have "set ns = set cs \<inter> set (country t)" by (auto simp add: ns_def)
    ultimately show ?thesis by simp
  qed
  ultimately have "length recs = card (set cs \<inter> set (country t)) * nat (e - s + 1)" by simp
  with m show ?thesis by blast
qed


theorem melted_df_count_witness:
  "years scenario_canonical = [2000..2002] \<and> (2000::int) \<le> 2001
   \<and> 2000 \<in> set (years scenario_canonical) \<and> 2001 \<in> set (years scenario_canonical)
   \<and> well_formed scenario_canonical \<and> distinct (country scenario_canonical)
   \<and> (\<exists>recs. melted_df scenario_canonical [''Andorra'', ''Zimbabwe''] (2000, 2001) = Inr recs
         \<and> length recs = 4)"
proof -
  have m: "2000 \<in> set (years scenario_canonical)" "2001 \<in> set (years scenario_canonical)"
    by (simp_all add: scenario_years)
  have w: "well_formed scenario_canonical" "distinct (country scenario_canonical)"
    by (simp_all add: well_formed_def scenario_canonical_def)
  have c: "card (set [''Andorra'', ''Zimbabwe''] \<inter> set (country scenario_canonical)) = 2"
    by (simp add: scenario_canonical_def)
  show ?thesis
    using melted_df_count [OF scenario_years _ m w, of "[''Andorra'', ''Zimbabwe'']"] scenario_years m w c
    by simp
qed


text \<open>
  C4, as the code has it. \<^verbatim>\<open>pd.melt\<close> emits one value column after the other, and
  the rows of the selection are in the table's row order. So the records are grouped by
  year, the years ascending, and inside each year the selected countries come in the
  table's row order, whatever the order in which they were supplied.
\<close>

theorem melted_df_order:
  assumes "years t = [lo..hi]" and "s \<le> e"
    and "s \<in> set (years t)" and "e \<in> set (years t)"
    and "well_formed t"
  shows "\<exists>recs. melted_df t cs (s, e) = Inr recs
           \<and> map (\<lambda>r. fst (snd r)) recs
               = concat (map (\<lambda>y. replicate (length (filter (\<lambda>c. c \<in> set cs) (country t))) y)
                           [s..e])
           \<and> map fst recs
               = concat (replicate (nat (e - s + 1)) (filter (\<lambda>c. c \<in> set cs) (country t)))"
proof -
  from assms have b: "lo \<le> s" "s \<le> hi" "e \<le> hi" by auto
  define ns where "ns = filter (\<lambda>c. c \<in> set cs) (country t)"
  define cols where "cols = filter (\<lambda>c. s \<le> fst c \<and> fst c \<le> e) (ycols t)"
  define recs where
    "recs = concat (map (\<lambda>c. map (\<lambda>p. (fst p, fst c, snd p))
                               (zip ns (mask_rows (isin (country t) cs) (snd c)))) cols)"
  have m: "melted_df t cs (s, e) = Inr recs"
    using mini_df_is_select [OF assms(1) b(1) assms(2) b(2), of cs]
    by (simp add: melted_df_def melt_select recs_def ns_def cols_def)
  have h: "\<And>c. c \<in> set cols \<Longrightarrow> length (mask_rows (isin (country t) cs) (snd c)) = length ns"
    unfolding ns_def cols_def using selected_column_length [OF assms(5)] by simp
  have ys: "map fst cols = [s..e]"
    unfolding cols_def using assms(1) b(1) b(3) by (rule selected_years)
  then have "length (map fst cols) = nat (e - s + 1)" using assms(2) by simp
  then have len: "length cols = nat (e - s + 1)" by simp
  have 1: "map (\<lambda>r. fst (snd r)) recs = concat (map (\<lambda>y. replicate (length ns) y) [s..e])"
    unfolding recs_def using melt_cols_years [of cols _ ns, OF h] ys by simp
  have 2: "map fst recs = concat (replicate (nat (e - s + 1)) ns)"
    unfolding recs_def using melt_cols_countries [of cols _ ns, OF h] len by simp
  from m 1 2 show ?thesis unfolding ns_def by blast
qed


theorem melted_df_order_witness:
  "years scenario_canonical = [2000..2002] \<and> (2000::int) \<le> 2001
   \<and> 2000 \<in> set (years scenario_canonical) \<and> 2001 \<in> set (years scenario_canonical)
   \<and> well_formed scenario_canonical
   \<and> (\<exists>recs. melted_df scenario_canonical [''Zimbabwe'', ''Andorra''] (2000, 2001) = Inr recs
         \<and> map (\<lambda>r. fst (snd r)) recs = [2000, 2000, 2001, 2001]
         \<and> map fst recs = [''Andorra'', ''Zimbabwe'', ''Andorra'', ''Zimbabwe''])"
proof -
  have m: "2000 \<in> set (years scenario_canonical)" "2001 \<in> set (years scenario_canonical)"
    by (simp_all add: scenario_years)
  have w: "well_formed scenario_canonical"
    by (simp add: well_formed_def scenario_canonical_def)
  have u: "[2000..2001::int] = [2000, 2001]" by (simp add: upto_rec1)
  show ?thesis
    using melted_df_order [OF scenario_years _ m w, of "[''Zimbabwe'', ''Andorra'']"] scenario_years m w
    by (simp add: u scenario_canonical_def numeral_2_eq_2)
qed


text \<open>
  C4, as the claim states it, fails on the end-to-end scenario: the normalized table,
  both countries, range (2000, 2001). The tidy records are the two of 2000 then the two of
  2001, not the two of Andorra then the two of Zimbabwe.
\<close>

theorem melted_df_not_grouped_by_country:
  "normalize scenario = Inr scenario_canonical
   \<and> melted_df scenario_canonical [''Andorra'', ''Zimbabwe''] (2000, 2001)
     = Inr [(''Andorra'', 2000, NInt 1000), (''Zimbabwe'', 2000, NInt 500),
            (''Andorra'', 2001, NInt 1100), (''Zimbabwe'', 2001, NInt 1500)]
   \<and> melted_df scenario_canonical [''Andorra'', ''Zimbabwe''] (2000, 2001)
     \<noteq> Inr [(''Andorra'', 2000, NInt 1000), (''Andorra'', 2001, NInt 1100),
            (''Zimbabwe'', 2000, NInt 500), (''Zimbabwe'', 2001, NInt 1500)]"
  by (simp add: normalize_def normalize_col_def scenario_def eval_defs
        melted_df_def melt_def mini_df_def scenario_canonical_def years_def py_nth_def loc_def
        frame_of_def isin_def mask_rows_def columns_def py_slice_def slice_bound_def
        drop_columns_def)

section \<open>Normalizing a whole table\<close>












text \<open>
  The hypothesis matters: the table normalized from a bare \<open>k\<close> holds the float of line
  30, it is not canonical, and normalizing it again raises TypeError.
\<close>

lemma renormalize_bare_suffix:
  "normalize \<lparr>country = [''Andorra''], ycols = [(2000, [PStr ''k''])]\<rparr>
     = Inr \<lparr>country = [''Andorra''], ycols = [(2000, [NFloat (FloatOf 1000)])]\<rparr>
   \<and> normalize (raw_table \<lparr>country = [''Andorra''], ycols = [(2000, [NFloat (FloatOf 1000)])]\<rparr>)
     = Inl TypeError"
  by (simp add: normalize_def normalize_col_def raw_table_def)

section \<open>When the normalizer fails\<close>




















end
